theory Spec2Isabelle
  imports Complex_Main "HOL-Library.AList"
begin

section \<open>Data model (models.py)\<close>

text \<open>
  Identifiers are the strings that \<^verbatim>\<open>uuid.uuid4()\<close> produces. They, the random part
  of a payment reference, the one-time code and the session token are inputs of the
  operations that draw them. Timestamps (\<^verbatim>\<open>touch\<close>) and the optional storage
  collaborator (\<^verbatim>\<open>storage = None\<close>) are left out: no operation reads them back.
  \<^verbatim>\<open>Decimal\<close> values are the elements of a type parameter \<open>'d\<close>, about which nothing
  is assumed; the arithmetic of the \<^verbatim>\<open>decimal\<close> module on them is a parameter of the
  functions that compute with amounts.
\<close>

type_synonym pid = string
type_synonym uid = string
type_synonym oid = string

datatype error =
    NotFoundError | AuthenticationError | AuthorizationError
  | InventoryError | PaymentError | ValueError | AttributeError | DecimalException

record 'd product =
  product_name :: string
  price :: 'd
  stock :: int
  category_id :: string

text \<open>\<^verbatim>\<open>Product.adjust_stock\<close>: rejects a change that would drive the stock negative.\<close>

definition adjust_stock :: "'d product \<Rightarrow> int \<Rightarrow> error + 'd product" where
  "adjust_stock p qty =
     (let new_stock = stock p + qty in
      if new_stock < 0 then Inl InventoryError
      else Inr (p\<lparr>stock := new_stock\<rparr>))"

text \<open>
  A \<^verbatim>\<open>CartItem\<close> holds a reference to the live \<^verbatim>\<open>Product\<close> object, not a copy.
  Product objects are identified by their id; \<open>objs\<close> below is the store that maps each
  such reference to the object's current fields.
\<close>

record cart_item =
  product :: pid
  quantity :: int

definition increment :: "cart_item \<Rightarrow> int \<Rightarrow> cart_item" where
  "increment it qty = it\<lparr>quantity := quantity it + qty\<rparr>"

text \<open>
  The operations of \<^verbatim>\<open>Decimal\<close> that the code uses: the product of a decimal and an
  int, and the sum of two decimals, each of which rounds in the decimal context and may
  raise one of its trapped signals (\<open>DecimalException\<close>). \<open>dec_zero\<close> is the int 0 that
  \<^verbatim>\<open>sum\<close> starts from, which the first addition converts.
\<close>

record 'd decimal_ops =
  dec_zero :: 'd
  dec_add :: "'d \<Rightarrow> 'd \<Rightarrow> error + 'd"
  dec_mul :: "'d \<Rightarrow> int \<Rightarrow> error + 'd"

definition line_total :: "'d decimal_ops \<Rightarrow> (pid \<Rightarrow> 'd product) \<Rightarrow> cart_item \<Rightarrow> error + 'd" where
  "line_total ar objs it = dec_mul ar (price (objs (product it))) (quantity it)"

datatype order_status = CREATED | PAID | FAILED | SHIPPED

datatype payment_status = PAY_SUCCESS | PAY_PENDING | PAY_FAILED

record order =
  order_id :: oid
  user_id :: uid
  items :: "cart_item list"
  status :: order_status
  payment_reference :: "string option"

text \<open>
  \<^verbatim>\<open>sum(item.line_total for item in self.items)\<close>: the running sum, from the left; the
  line totals are computed one at a time as the sum consumes them.
\<close>

fun sum_line_totals ::
  "'d decimal_ops \<Rightarrow> (pid \<Rightarrow> 'd product) \<Rightarrow> 'd \<Rightarrow> cart_item list \<Rightarrow> error + 'd" where
  "sum_line_totals ar objs acc [] = Inr acc"
| "sum_line_totals ar objs acc (it # its) =
     (case line_total ar objs it of
        Inl e \<Rightarrow> Inl e
      | Inr v \<Rightarrow>
          (case dec_add ar acc v of
             Inl e \<Rightarrow> Inl e
           | Inr acc' \<Rightarrow> sum_line_totals ar objs acc' its))"

definition subtotal :: "'d decimal_ops \<Rightarrow> (pid \<Rightarrow> 'd product) \<Rightarrow> order \<Rightarrow> error + 'd" where
  "subtotal ar objs ord = sum_line_totals ar objs (dec_zero ar) (items ord)"

definition mark_paid :: "order \<Rightarrow> string \<Rightarrow> order" where
  "mark_paid ord ref = ord\<lparr>status := PAID, payment_reference := Some ref\<rparr>"

text \<open>Values that travel in \<^verbatim>\<open>**kwargs\<close> and in a receipt's metadata.\<close>

datatype pyval = VNone | VStr string | VBool bool

type_synonym kwargs = "string \<Rightarrow> pyval option"

text \<open>\<^verbatim>\<open>d.get(key)\<close> and \<^verbatim>\<open>d.get(key, default)\<close>.\<close>

definition dict_get :: "(string \<Rightarrow> pyval option) \<Rightarrow> string \<Rightarrow> pyval \<Rightarrow> pyval" where
  "dict_get d k dflt = (case d k of None \<Rightarrow> dflt | Some v \<Rightarrow> v)"

fun truthy :: "pyval \<Rightarrow> bool" where
  "truthy VNone = False"
| "truthy (VStr s) = (s \<noteq> [])"
| "truthy (VBool b) = b"

record 'd payment_receipt =
  receipt_order_id :: oid
  method_name :: string
  amount :: 'd
  reference :: string
  receipt_status :: payment_status
  metadata :: "string \<Rightarrow> pyval option"

section \<open>Shopping cart (cart.py)\<close>

text \<open>
  \<^verbatim>\<open>ShoppingCart._items\<close> is a dict from product id to \<^verbatim>\<open>CartItem\<close>; its insertion
  order is the order of the items of an order, so it is an association list.
\<close>

type_synonym shopping_cart = "(pid \<times> cart_item) list"

definition add_item :: "shopping_cart \<Rightarrow> pid \<Rightarrow> int \<Rightarrow> shopping_cart" where
  "add_item cart p qty =
     (case map_of cart p of
        Some it \<Rightarrow> AList.update p (increment it qty) cart
      | None \<Rightarrow> AList.update p \<lparr>product = p, quantity = qty\<rparr> cart)"

definition remove_item :: "shopping_cart \<Rightarrow> pid \<Rightarrow> int \<Rightarrow> shopping_cart" where
  "remove_item cart p qty =
     (case map_of cart p of
        None \<Rightarrow> cart
      | Some it \<Rightarrow>
          (let it' = it\<lparr>quantity := quantity it - qty\<rparr> in
           if quantity it' \<le> 0 then AList.delete p cart
           else AList.update p it' cart))"

definition cart_items :: "shopping_cart \<Rightarrow> cart_item list" where
  "cart_items cart = map snd cart"

definition is_empty :: "shopping_cart \<Rightarrow> bool" where
  "is_empty cart = (cart = [])"

section \<open>Payment strategies and processor (payments.py)\<close>

record rand =
  uuid_hex :: string
  otp_code :: string

text \<open>
  \<^verbatim>\<open>PaymentStrategy\<close> is an abstract class: a strategy is its name, its
  \<^verbatim>\<open>requires_confirmation\<close> flag and its two methods. \<open>pay\<close> reads the order's id and
  subtotal, so it takes the product store as well; the four strategies of the repository
  compute the subtotal with the decimal arithmetic they are given, and raise what it
  raises.
\<close>

record 'd payment_strategy =
  strategy_name :: string
  requires_confirmation :: bool
  pay :: "(pid \<Rightarrow> 'd product) \<Rightarrow> order \<Rightarrow> rand \<Rightarrow> error + 'd payment_receipt"
  complete :: "'d payment_receipt \<Rightarrow> kwargs \<Rightarrow> error + 'd payment_receipt"

text \<open>The base class's \<^verbatim>\<open>complete\<close>: manual confirmation is not supported.\<close>

definition base_complete :: "'d payment_receipt \<Rightarrow> kwargs \<Rightarrow> error + 'd payment_receipt" where
  "base_complete receipt kw = Inl PaymentError"

definition card_pay ::
  "'d decimal_ops \<Rightarrow> string \<Rightarrow> string \<Rightarrow> (pid \<Rightarrow> 'd product) \<Rightarrow> order \<Rightarrow> rand \<Rightarrow> error + 'd payment_receipt" where
  "card_pay ar nm processor objs ord r =
     (case subtotal ar objs ord of
        Inl e \<Rightarrow> Inl e
      | Inr amt \<Rightarrow>
          Inr \<lparr>receipt_order_id = order_id ord,
               method_name = nm,
               amount = amt,
               reference = processor @ ''-'' @ take 8 (uuid_hex r),
               receipt_status = PAY_PENDING,
               metadata = [''processor'' \<mapsto> VStr processor, ''challenge'' \<mapsto> VStr ''otp'',
                      ''otp'' \<mapsto> VStr (otp_code r)]\<rparr>)"

definition card_complete :: "'d payment_receipt \<Rightarrow> kwargs \<Rightarrow> error + 'd payment_receipt" where
  "card_complete receipt kw =
     (let otp = dict_get kw ''otp'' VNone in
      if otp \<noteq> dict_get (metadata receipt) ''otp'' VNone
      then Inr (receipt\<lparr>receipt_status := PAY_FAILED\<rparr>)
      else Inr (receipt\<lparr>receipt_status := PAY_SUCCESS,
                        metadata := ((metadata receipt)(''verified_at'' \<mapsto> VStr ''otp''))
                                      (''otp'' := None)\<rparr>))"

definition CardPayment :: "'d decimal_ops \<Rightarrow> string \<Rightarrow> string \<Rightarrow> 'd payment_strategy" where
  "CardPayment ar nm processor =
     \<lparr>strategy_name = nm, requires_confirmation = True,
      pay = card_pay ar nm processor, complete = card_complete\<rparr>"

definition bank_pay ::
  "'d decimal_ops \<Rightarrow> string \<Rightarrow> string \<Rightarrow> (pid \<Rightarrow> 'd product) \<Rightarrow> order \<Rightarrow> rand \<Rightarrow> error + 'd payment_receipt" where
  "bank_pay ar nm bank_name objs ord r =
     (case subtotal ar objs ord of
        Inl e \<Rightarrow> Inl e
      | Inr amt \<Rightarrow>
          Inr \<lparr>receipt_order_id = order_id ord,
               method_name = nm,
               amount = amt,
               reference = ''NEFT-'' @ take 6 (uuid_hex r),
               receipt_status = PAY_PENDING,
               metadata = [''bank'' \<mapsto> VStr bank_name]\<rparr>)"

definition bank_complete :: "'d payment_receipt \<Rightarrow> kwargs \<Rightarrow> error + 'd payment_receipt" where
  "bank_complete receipt kw =
     Inr (receipt\<lparr>receipt_status := PAY_SUCCESS,
                  metadata := (metadata receipt)
                     (''bank_ack'' \<mapsto> dict_get kw ''transaction_id'' (VStr ''manual''))\<rparr>)"

definition BankTransferPayment :: "'d decimal_ops \<Rightarrow> string \<Rightarrow> string \<Rightarrow> 'd payment_strategy" where
  "BankTransferPayment ar nm bank_name =
     \<lparr>strategy_name = nm, requires_confirmation = True,
      pay = bank_pay ar nm bank_name, complete = bank_complete\<rparr>"

definition upi_pay ::
  "'d decimal_ops \<Rightarrow> string \<Rightarrow> string \<Rightarrow> (pid \<Rightarrow> 'd product) \<Rightarrow> order \<Rightarrow> rand \<Rightarrow> error + 'd payment_receipt" where
  "upi_pay ar nm handle objs ord r =
     (case subtotal ar objs ord of
        Inl e \<Rightarrow> Inl e
      | Inr amt \<Rightarrow>
          Inr \<lparr>receipt_order_id = order_id ord,
               method_name = nm,
               amount = amt,
               reference = ''UPI-'' @ take 10 (uuid_hex r),
               receipt_status = PAY_SUCCESS,
               metadata = [''handle'' \<mapsto> VStr handle]\<rparr>)"

definition UpiPayment :: "'d decimal_ops \<Rightarrow> string \<Rightarrow> string \<Rightarrow> 'd payment_strategy" where
  "UpiPayment ar nm handle =
     \<lparr>strategy_name = nm, requires_confirmation = False,
      pay = upi_pay ar nm handle, complete = base_complete\<rparr>"

definition cod_pay ::
  "'d decimal_ops \<Rightarrow> string \<Rightarrow> (pid \<Rightarrow> 'd product) \<Rightarrow> order \<Rightarrow> rand \<Rightarrow> error + 'd payment_receipt" where
  "cod_pay ar nm objs ord r =
     (case subtotal ar objs ord of
        Inl e \<Rightarrow> Inl e
      | Inr amt \<Rightarrow>
          Inr \<lparr>receipt_order_id = order_id ord,
               method_name = nm,
               amount = amt,
               reference = ''COD-'' @ take 5 (uuid_hex r),
               receipt_status = PAY_PENDING,
               metadata = [''instructions'' \<mapsto> VStr ''Collect cash on delivery'']\<rparr>)"

definition cod_complete :: "'d payment_receipt \<Rightarrow> kwargs \<Rightarrow> error + 'd payment_receipt" where
  "cod_complete receipt kw =
     (let delivered = dict_get kw ''delivered'' (VBool False) in
      Inr (receipt\<lparr>receipt_status := (if truthy delivered then PAY_SUCCESS else PAY_FAILED)\<rparr>))"

definition CashOnDeliveryPayment :: "'d decimal_ops \<Rightarrow> string \<Rightarrow> 'd payment_strategy" where
  "CashOnDeliveryPayment ar nm =
     \<lparr>strategy_name = nm, requires_confirmation = True,
      pay = cod_pay ar nm, complete = cod_complete\<rparr>"

record 'd payment_processor =
  strategies :: "string \<Rightarrow> 'd payment_strategy option"
  transactions :: "string \<Rightarrow> 'd payment_receipt option"

definition register :: "'d payment_processor \<Rightarrow> 'd payment_strategy \<Rightarrow> 'd payment_processor" where
  "register pp s = pp\<lparr>strategies := (strategies pp)(strategy_name s \<mapsto> s)\<rparr>"

text \<open>
  The processor's methods return their result (or the error raised) together with the
  processor as the call leaves it.
\<close>

definition processor_pay ::
  "'d payment_processor \<Rightarrow> (pid \<Rightarrow> 'd product) \<Rightarrow> string \<Rightarrow> order \<Rightarrow> rand
     \<Rightarrow> (error + 'd payment_receipt) \<times> 'd payment_processor" where
  "processor_pay pp objs meth ord r =
     (case strategies pp meth of
        None \<Rightarrow> (Inl PaymentError, pp)
      | Some strategy \<Rightarrow>
          (case pay strategy objs ord r of
             Inl e \<Rightarrow> (Inl e, pp)
           | Inr receipt \<Rightarrow>
               (Inr receipt,
                pp\<lparr>transactions := (transactions pp)(reference receipt \<mapsto> receipt)\<rparr>)))"

definition processor_complete ::
  "'d payment_processor \<Rightarrow> string \<Rightarrow> kwargs \<Rightarrow> (error + 'd payment_receipt) \<times> 'd payment_processor" where
  "processor_complete pp ref kw =
     (case transactions pp ref of
        None \<Rightarrow> (Inl PaymentError, pp)
      | Some receipt \<Rightarrow>
          (case strategies pp (method_name receipt) of
             None \<Rightarrow> (Inl PaymentError, pp)
           | Some strategy \<Rightarrow>
               if \<not> requires_confirmation strategy then (Inl PaymentError, pp)
               else (case complete strategy receipt kw of
                       Inl e \<Rightarrow> (Inl e, pp)
                     | Inr updated \<Rightarrow>
                         (Inr updated,
                          pp\<lparr>transactions := (transactions pp)(ref \<mapsto> updated)\<rparr>))))"

definition get_receipt :: "'d payment_processor \<Rightarrow> string \<Rightarrow> error + 'd payment_receipt" where
  "get_receipt pp ref =
     (case transactions pp ref of None \<Rightarrow> Inl PaymentError | Some receipt \<Rightarrow> Inr receipt)"

section \<open>Users and authentication (users.py)\<close>

text \<open>
  Time is the number of microseconds since the epoch, the resolution of \<^verbatim>\<open>datetime\<close>;
  a call reads the clock once. \<^verbatim>\<open>hashlib.sha256\<close> (with the encoding and the hex
  digest) is a parameter \<open>sha\<close> of the functions that hash, and
  \<^verbatim>\<open>secrets.compare_digest\<close> is equality. \<open>role\<close> is \<open>None\<close> for an instance of the base
  class \<^verbatim>\<open>User\<close>, which has no such attribute.
\<close>

type_synonym time = int

record user =
  user_ident :: uid
  username :: string
  full_name :: string
  password_hash :: string
  active :: bool
  failed_attempts :: int
  locked_until :: "time option"
  role :: "string option"

text \<open>\<^verbatim>\<open>hashed.split("$", 1)\<close> unpacked into two names: fails when there is no \<open>$\<close>.\<close>

fun split_first :: "char \<Rightarrow> string \<Rightarrow> (string \<times> string) option" where
  "split_first c [] = None"
| "split_first c (x # xs) =
     (if x = c then Some ([], xs)
      else map_option (\<lambda>(a, b). (x # a, b)) (split_first c xs))"

definition verify_password_hash :: "(string \<Rightarrow> string) \<Rightarrow> string \<Rightarrow> string \<Rightarrow> error + bool" where
  "verify_password_hash sha password hashed =
     (case split_first CHR ''$'' hashed of
        None \<Rightarrow> Inl ValueError
      | Some (salt, digest) \<Rightarrow> Inr (sha (salt @ '':'' @ password) = digest))"

definition verify_password :: "(string \<Rightarrow> string) \<Rightarrow> user \<Rightarrow> string \<Rightarrow> error + bool" where
  "verify_password sha u password = verify_password_hash sha password (password_hash u)"

definition is_locked :: "user \<Rightarrow> time \<Rightarrow> bool" where
  "is_locked u now = (case locked_until u of None \<Rightarrow> False | Some t \<Rightarrow> t > now)"

definition register_failed_login :: "user \<Rightarrow> int \<Rightarrow> time \<Rightarrow> time \<Rightarrow> user" where
  "register_failed_login u max_attempts lock_duration now =
     (let u1 = u\<lparr>failed_attempts := failed_attempts u + 1\<rparr> in
      if failed_attempts u1 \<ge> max_attempts
      then u1\<lparr>locked_until := Some (now + lock_duration), failed_attempts := 0\<rparr>
      else u1)"

definition reset_lock :: "user \<Rightarrow> user" where
  "reset_lock u = u\<lparr>failed_attempts := 0, locked_until := None\<rparr>"

definition MAX_FAILED_ATTEMPTS :: int where
  "MAX_FAILED_ATTEMPTS = 5"

definition LOCK_DURATION :: time where
  "LOCK_DURATION = 15 * 60 * 1000000"

record auth_service =
  users :: "string \<Rightarrow> user option"
  sessions :: "string \<Rightarrow> uid option"

definition require_admin :: "user \<Rightarrow> error + unit" where
  "require_admin u = (if role u \<noteq> Some ''admin'' then Inl AuthorizationError else Inr ())"

text \<open>
  \<^verbatim>\<open>AuthService.login\<close>; \<open>now\<close> is the clock at the call and \<open>token\<close> the value
  that \<^verbatim>\<open>secrets.token_urlsafe(24)\<close> returns.
\<close>

definition login ::
  "(string \<Rightarrow> string) \<Rightarrow> auth_service \<Rightarrow> string \<Rightarrow> string \<Rightarrow> time \<Rightarrow> string
     \<Rightarrow> (error + string) \<times> auth_service" where
  "login sha a uname password now token =
     (case users a uname of
        None \<Rightarrow> (Inl AuthenticationError, a)
      | Some u \<Rightarrow>
          if \<not> active u then (Inl AuthenticationError, a)
          else if is_locked u now then (Inl AuthenticationError, a)
          else (case verify_password sha u password of
                  Inl e \<Rightarrow> (Inl e, a)
                | Inr ok \<Rightarrow>
                    if \<not> ok
                    then (Inl AuthenticationError,
                          a\<lparr>users := (users a)(uname \<mapsto>
                               register_failed_login u MAX_FAILED_ATTEMPTS LOCK_DURATION now)\<rparr>)
                    else (Inr token,
                          a\<lparr>users := (users a)(uname \<mapsto> reset_lock u),
                            sessions := (sessions a)(token \<mapsto> user_ident u)\<rparr>)))"

definition unlock_user :: "auth_service \<Rightarrow> string \<Rightarrow> user \<Rightarrow> (error + unit) \<times> auth_service" where
  "unlock_user a uname acting_user =
     (case require_admin acting_user of
        Inl e \<Rightarrow> (Inl e, a)
      | Inr _ \<Rightarrow>
          (case users a uname of
             None \<Rightarrow> (Inl AuthenticationError, a)
           | Some u \<Rightarrow> (Inr (), a\<lparr>users := (users a)(uname \<mapsto> reset_lock u)\<rparr>)))"

text \<open>
  A sequence of login attempts (password, time, token): their results, and the service
  after the last of them.
\<close>

fun login_attempts ::
  "(string \<Rightarrow> string) \<Rightarrow> auth_service \<Rightarrow> string \<Rightarrow> (string \<times> time \<times> string) list
     \<Rightarrow> (error + string) list \<times> auth_service" where
  "login_attempts sha a uname [] = ([], a)"
| "login_attempts sha a uname ((pw, now, token) # rest) =
     (let (res, a1) = login sha a uname pw now token;
          (ress, a2) = login_attempts sha a1 uname rest
      in (res # ress, a2))"

section \<open>The platform (platform.py)\<close>

record category =
  category_name :: string
  description :: string

text \<open>
  \<open>objs\<close> is the store of \<^verbatim>\<open>Product\<close> objects, by id: carts and orders keep their
  references into it after a product has left the catalog. \<open>products\<close> holds the keys of
  the \<^verbatim>\<open>products\<close> dict. \<open>orders\<close> is a dict in insertion order, which
  \<^verbatim>\<open>confirm_payment\<close> scans. An operation returns its result (or the error raised)
  together with the platform as the call leaves it: an exception does not undo the
  assignments made before it.
\<close>

record 'd platform =
  payment_proc :: "'d payment_processor"
  categories :: "string \<Rightarrow> category option"
  objs :: "pid \<Rightarrow> 'd product"
  products :: "pid set"
  carts :: "uid \<Rightarrow> shopping_cart option"
  orders :: "(oid \<times> order) list"

text \<open>\<^verbatim>\<open>_require_admin\<close> reads \<^verbatim>\<open>user.role\<close>, which the base class does not have.\<close>

definition platform_require_admin :: "user \<Rightarrow> error + unit" where
  "platform_require_admin u =
     (case role u of
        None \<Rightarrow> Inl AttributeError
      | Some r \<Rightarrow> if r \<noteq> ''admin'' then Inl AuthorizationError else Inr ())"

definition products_get :: "'d platform \<Rightarrow> pid \<Rightarrow> 'd product option" where
  "products_get s p = (if p \<in> products s then Some (objs s p) else None)"

definition create_category ::
  "'d platform \<Rightarrow> string \<Rightarrow> string \<Rightarrow> user \<Rightarrow> string \<Rightarrow> (error + string) \<times> 'd platform" where
  "create_category s nm descr acting_user new_id =
     (case platform_require_admin acting_user of
        Inl e \<Rightarrow> (Inl e, s)
      | Inr _ \<Rightarrow>
          (Inr new_id,
           s\<lparr>categories := (categories s)
                (new_id \<mapsto> \<lparr>category_name = nm, description = descr\<rparr>)\<rparr>))"

definition delete_category :: "'d platform \<Rightarrow> string \<Rightarrow> user \<Rightarrow> (error + unit) \<times> 'd platform" where
  "delete_category s cid acting_user =
     (case platform_require_admin acting_user of
        Inl e \<Rightarrow> (Inl e, s)
      | Inr _ \<Rightarrow>
          (Inr (),
           s\<lparr>categories := (categories s)(cid := None),
             products := {p \<in> products s. category_id (objs s p) \<noteq> cid}\<rparr>))"

definition add_product ::
  "'d platform \<Rightarrow> string \<Rightarrow> 'd \<Rightarrow> int \<Rightarrow> string \<Rightarrow> user \<Rightarrow> pid \<Rightarrow> (error + pid) \<times> 'd platform" where
  "add_product s nm pr st cid acting_user new_id =
     (case platform_require_admin acting_user of
        Inl e \<Rightarrow> (Inl e, s)
      | Inr _ \<Rightarrow>
          if categories s cid = None then (Inl NotFoundError, s)
          else (Inr new_id,
                s\<lparr>objs := (objs s)
                     (new_id := \<lparr>product_name = nm, price = pr, stock = st, category_id = cid\<rparr>),
                  products := insert new_id (products s)\<rparr>))"

definition remove_product :: "'d platform \<Rightarrow> pid \<Rightarrow> user \<Rightarrow> (error + unit) \<times> 'd platform" where
  "remove_product s p acting_user =
     (case platform_require_admin acting_user of
        Inl e \<Rightarrow> (Inl e, s)
      | Inr _ \<Rightarrow> (Inr (), s\<lparr>products := products s - {p}\<rparr>))"

text \<open>\<^verbatim>\<open>get_cart\<close> creates the user's cart on first access.\<close>

definition get_cart :: "'d platform \<Rightarrow> uid \<Rightarrow> shopping_cart \<times> 'd platform" where
  "get_cart s u =
     (case carts s u of
        None \<Rightarrow> ([], s\<lparr>carts := (carts s)(u \<mapsto> [])\<rparr>)
      | Some cart \<Rightarrow> (cart, s))"

definition add_to_cart :: "'d platform \<Rightarrow> uid \<Rightarrow> pid \<Rightarrow> int \<Rightarrow> (error + unit) \<times> 'd platform" where
  "add_to_cart s u p qty =
     (case products_get s p of
        None \<Rightarrow> (Inl NotFoundError, s)
      | Some pobj \<Rightarrow>
          if stock pobj < qty then (Inl ValueError, s)
          else (case adjust_stock pobj (- qty) of
                  Inl e \<Rightarrow> (Inl e, s)
                | Inr pobj' \<Rightarrow>
                    (let s1 = s\<lparr>objs := (objs s)(p := pobj')\<rparr>;
                         (cart, s2) = get_cart s1 u
                     in (Inr (), s2\<lparr>carts := (carts s2)(u \<mapsto> add_item cart p qty)\<rparr>))))"

definition remove_from_cart :: "'d platform \<Rightarrow> uid \<Rightarrow> pid \<Rightarrow> int \<Rightarrow> (error + unit) \<times> 'd platform" where
  "remove_from_cart s u p qty =
     (let (cart, s1) = get_cart s u;
          s2 = s1\<lparr>carts := (carts s1)(u \<mapsto> remove_item cart p qty)\<rparr>
      in case products_get s2 p of
           None \<Rightarrow> (Inr (), s2)
         | Some pobj \<Rightarrow>
             (case adjust_stock pobj qty of
                Inl e \<Rightarrow> (Inl e, s2)
              | Inr pobj' \<Rightarrow> (Inr (), s2\<lparr>objs := (objs s2)(p := pobj')\<rparr>)))"

text \<open>
  The compensation loop \<^verbatim>\<open>for item in order.items: item.product.adjust_stock(item.quantity)\<close>;
  it stops at the first item whose adjustment raises, the earlier ones staying restocked.
\<close>

fun restock :: "(pid \<Rightarrow> 'd product) \<Rightarrow> cart_item list \<Rightarrow> (error + unit) \<times> (pid \<Rightarrow> 'd product)" where
  "restock h [] = (Inr (), h)"
| "restock h (it # its) =
     (case adjust_stock (h (product it)) (quantity it) of
        Inl e \<Rightarrow> (Inl e, h)
      | Inr pobj' \<Rightarrow> restock (h(product it := pobj')) its)"

text \<open>The tail of \<^verbatim>\<open>checkout\<close>: store the order, clear the cart, return the order.\<close>

definition place_order :: "'d platform \<Rightarrow> uid \<Rightarrow> order \<Rightarrow> (error + order) \<times> 'd platform" where
  "place_order s u ord =
     (Inr ord,
      s\<lparr>orders := AList.update (order_id ord) ord (orders s),
        carts := (carts s)(u \<mapsto> [])\<rparr>)"

definition checkout ::
  "'d platform \<Rightarrow> uid \<Rightarrow> string \<Rightarrow> oid \<Rightarrow> rand \<Rightarrow> (error + order) \<times> 'd platform" where
  "checkout s u payment_method new_id r =
     (let (cart, s1) = get_cart s u in
      if is_empty cart then (Inl ValueError, s1)
      else
        (let ord = \<lparr>order_id = new_id, user_id = u, items = cart_items cart,
                    status = CREATED, payment_reference = None\<rparr>;
             (res, pp) = processor_pay (payment_proc s1) (objs s1) payment_method ord r;
             s2 = s1\<lparr>payment_proc := pp\<rparr>
         in case res of
              Inl e \<Rightarrow> (Inl e, s2)
            | Inr receipt \<Rightarrow>
                if receipt_status receipt = PAY_SUCCESS
                then place_order s2 u (mark_paid ord (reference receipt))
                else if receipt_status receipt = PAY_FAILED
                then (let ord' = ord\<lparr>status := FAILED,
                                      payment_reference := Some (reference receipt)\<rparr>
                      in case restock (objs s2) (items ord') of
                           (Inl e, h) \<Rightarrow> (Inl e, s2\<lparr>objs := h\<rparr>)
                         | (Inr _, h) \<Rightarrow> place_order (s2\<lparr>objs := h\<rparr>) u ord')
                else place_order s2 u (ord\<lparr>payment_reference := Some (reference receipt)\<rparr>)))"

definition list_orders :: "'d platform \<Rightarrow> user \<Rightarrow> error + order list" where
  "list_orders s acting_user =
     (case platform_require_admin acting_user of
        Inl e \<Rightarrow> Inl e
      | Inr _ \<Rightarrow> Inr (map snd (orders s)))"

definition confirm_payment ::
  "'d platform \<Rightarrow> string \<Rightarrow> kwargs \<Rightarrow> (error + order) \<times> 'd platform" where
  "confirm_payment s ref kw =
     (let (res, pp) = processor_complete (payment_proc s) ref kw;
          s1 = s\<lparr>payment_proc := pp\<rparr>
      in case res of
           Inl e \<Rightarrow> (Inl e, s1)
         | Inr receipt \<Rightarrow>
             (case find (\<lambda>(k, ord). payment_reference ord = Some ref) (orders s1) of
                None \<Rightarrow> (Inl NotFoundError, s1)
              | Some (k, ord) \<Rightarrow>
                  if receipt_status receipt = PAY_SUCCESS
                  then (let ord' = mark_paid ord ref
                        in (Inr ord', s1\<lparr>orders := AList.update k ord' (orders s1)\<rparr>))
                  else (let ord' = ord\<lparr>status := FAILED\<rparr>;
                            s2 = s1\<lparr>orders := AList.update k ord' (orders s1)\<rparr>
                        in case restock (objs s2) (items ord') of
                             (Inl e, h) \<Rightarrow> (Inl e, s2\<lparr>objs := h\<rparr>)
                           | (Inr _, h) \<Rightarrow> (Inr ord', s2\<lparr>objs := h\<rparr>))))"

text \<open>
  \<^verbatim>\<open>bootstrap_platform\<close> without storage: the four payment methods registered, nothing
  else.
\<close>

definition empty_processor :: "'d payment_processor" where
  "empty_processor = \<lparr>strategies = Map.empty, transactions = Map.empty\<rparr>"

definition bootstrap_processor :: "'d decimal_ops \<Rightarrow> 'd payment_processor" where
  "bootstrap_processor ar =
     register (register (register (register empty_processor
       (CardPayment ar ''card'' ''VISA''))
       (BankTransferPayment ar ''bank_transfer'' ''Demo Bank''))
       (UpiPayment ar ''upi'' ''merchant@upi''))
       (CashOnDeliveryPayment ar ''cod'')"

definition no_product :: "'d decimal_ops \<Rightarrow> 'd product" where
  "no_product ar = \<lparr>product_name = [], price = dec_zero ar, stock = 0, category_id = []\<rparr>"

definition bootstrap_platform :: "'d decimal_ops \<Rightarrow> 'd platform" where
  "bootstrap_platform ar =
     \<lparr>payment_proc = bootstrap_processor ar, categories = Map.empty,
      objs = (\<lambda>_. no_product ar), products = {}, carts = Map.empty, orders = []\<rparr>"

section \<open>Sequences of operations\<close>

datatype 'd op =
    AddToCart uid pid int
  | RemoveFromCart uid pid int
  | Checkout uid string oid rand
  | ConfirmPayment string kwargs
  | CreateCategory string string user string
  | DeleteCategory string user
  | AddProduct string 'd int string user pid
  | RemoveProduct pid user
  | SetPrice pid 'd

text \<open>
  \<open>SetPrice\<close> is the assignment \<^verbatim>\<open>product.price = v\<close> on a live product object; the
  other operations are the platform's methods. A step keeps the platform as the call
  leaves it, whether it returned or raised.
\<close>

fun step :: "'d platform \<Rightarrow> 'd op \<Rightarrow> 'd platform" where
  "step s (AddToCart u p q) = snd (add_to_cart s u p q)"
| "step s (RemoveFromCart u p q) = snd (remove_from_cart s u p q)"
| "step s (Checkout u m new_id r) = snd (checkout s u m new_id r)"
| "step s (ConfirmPayment ref kw) = snd (confirm_payment s ref kw)"
| "step s (CreateCategory nm descr acting new_id) = snd (create_category s nm descr acting new_id)"
| "step s (DeleteCategory cid acting) = snd (delete_category s cid acting)"
| "step s (AddProduct nm pr st cid acting new_id) = snd (add_product s nm pr st cid acting new_id)"
| "step s (RemoveProduct p acting) = snd (remove_product s p acting)"
| "step s (SetPrice p v) = s\<lparr>objs := (objs s)(p := (objs s p)\<lparr>price := v\<rparr>)\<rparr>"

fun run :: "'d platform \<Rightarrow> 'd op list \<Rightarrow> 'd platform" where
  "run s [] = s"
| "run s (x # xs) = run (step s x) xs"

fun shopping_op :: "'d op \<Rightarrow> bool" where
  "shopping_op (AddToCart u p q) = True"
| "shopping_op (RemoveFromCart u p q) = True"
| "shopping_op (Checkout u m new_id r) = True"
| "shopping_op (ConfirmPayment ref kw) = True"
| "shopping_op _ = False"

section \<open>A small shop, for concrete runs\<close>

text \<open>
  The platform of the repository's tests: the bootstrap platform with one product, a
  lamp at 30.00 with two in stock. Its amounts are rationals, and \<open>exact_ops\<close> is
  decimal arithmetic where no rounding occurs and no signal is raised, as for the
  amounts of these runs (products and sums of integers below 100).
\<close>

definition exact_ops :: "rat decimal_ops" where
  "exact_ops =
     \<lparr>dec_zero = 0, dec_add = (\<lambda>a b. Inr (a + b)), dec_mul = (\<lambda>a q. Inr (a * of_int q))\<rparr>"

definition lamp :: "rat product" where
  "lamp = \<lparr>product_name = ''Lamp'', price = 30, stock = 2, category_id = ''home''\<rparr>"

definition lamp_shop :: "rat platform" where
  "lamp_shop =
     (bootstrap_platform exact_ops)
       \<lparr>objs := (objs (bootstrap_platform exact_ops))(''p1'' := lamp),
        products := {''p1''}\<rparr>"

definition lamp_rand :: rand where
  "lamp_rand = \<lparr>uuid_hex = ''0123456789abcdef'', otp_code = ''123456''\<rparr>"

section \<open>Predicates on states and runs\<close>

text \<open>
  \<^verbatim>\<open>uuid4\<close> ids are taken to be unique: a run has fresh order ids when every checkout
  of it draws an id that no stored order has.
\<close>

fun fresh_order_ids :: "'d platform \<Rightarrow> 'd op list \<Rightarrow> bool" where
  "fresh_order_ids s [] = True"
| "fresh_order_ids s (x # xs) =
     ((case x of Checkout u m new_id r \<Rightarrow> map_of (orders s) new_id = None | _ \<Rightarrow> True)
      \<and> fresh_order_ids (step s x) xs)"

text \<open>The order stored under \<open>k\<close> has the items of \<open>ord\<close> (and the dict has distinct keys).\<close>

definition keeps_items :: "(oid \<times> order) list \<Rightarrow> oid \<Rightarrow> order \<Rightarrow> bool" where
  "keeps_items os k ord =
     (distinct (map fst os) \<and>
      (case map_of os k of None \<Rightarrow> False | Some ord' \<Rightarrow> items ord' = items ord))"

text \<open>\<^verbatim>\<open>get_receipt(order.payment_reference)\<close> returns a receipt.\<close>

definition has_receipt :: "'d payment_processor \<Rightarrow> order \<Rightarrow> bool" where
  "has_receipt pp ord =
     (case payment_reference ord of
        None \<Rightarrow> False
      | Some ref \<Rightarrow> (case get_receipt pp ref of Inl e \<Rightarrow> False | Inr receipt \<Rightarrow> True))"

definition orders_have_receipts :: "'d platform \<Rightarrow> bool" where
  "orders_have_receipts s = list_all (\<lambda>(k, ord). has_receipt (payment_proc s) ord) (orders s)"

text \<open>Alice puts one lamp in her cart, then checks out by card or by UPI.\<close>

definition lamp_in_cart :: "rat platform" where
  "lamp_in_cart = snd (add_to_cart lamp_shop ''alice'' ''p1'' 1)"

definition card_checkout :: "(error + order) \<times> rat platform" where
  "card_checkout = checkout lamp_in_cart ''alice'' ''card'' ''o1'' lamp_rand"

definition upi_checkout :: "(error + order) \<times> rat platform" where
  "upi_checkout = checkout lamp_in_cart ''alice'' ''upi'' ''o1'' lamp_rand"

definition lamp_order :: "order_status \<Rightarrow> string \<Rightarrow> order" where
  "lamp_order st ref =
     \<lparr>order_id = ''o1'', user_id = ''alice'', items = [\<lparr>product = ''p1'', quantity = 1\<rparr>],
      status = st, payment_reference = Some ref\<rparr>"

definition wrong_otp :: kwargs where
  "wrong_otp = [''otp'' \<mapsto> VStr ''000000'']"

definition right_otp :: kwargs where
  "right_otp = [''otp'' \<mapsto> VStr ''123456'']"

text \<open>The payment processor after the card checkout, and after a wrong code was tried.\<close>

definition card_pending :: "rat payment_processor" where
  "card_pending = payment_proc (snd card_checkout)"

definition card_failed :: "rat payment_processor" where
  "card_failed = snd (processor_complete card_pending ''VISA-01234567'' wrong_otp)"

text \<open>
  A user for concrete runs. \<open>plain_sha\<close> stands in for SHA-256 there: the stored hash
  is the salt, a dollar sign and the digest of salt, colon and password.
\<close>

definition plain_sha :: "string \<Rightarrow> string" where
  "plain_sha s = s"

definition alice :: user where
  "alice = \<lparr>user_ident = ''u-alice'', username = ''alice'', full_name = ''Alice Customer'',
            password_hash = ''ab$ab:password'', active = True, failed_attempts = 0,
            locked_until = None, role = Some ''customer''\<rparr>"

definition admin :: user where
  "admin = \<lparr>user_ident = ''u-admin'', username = ''admin'', full_name = ''Admin User'',
            password_hash = ''cd$cd:admin123'', active = True, failed_attempts = 0,
            locked_until = None, role = Some ''admin''\<rparr>"

definition alice_auth :: auth_service where
  "alice_auth = \<lparr>users = [''alice'' \<mapsto> alice, ''admin'' \<mapsto> admin], sessions = Map.empty\<rparr>"

definition five_wrong :: "(string \<times> time \<times> string) list" where
  "five_wrong =
     [(''wrong'', 10, ''t1''), (''wrong'', 20, ''t2''), (''wrong'', 30, ''t3''),
      (''wrong'', 40, ''t4''), (''wrong'', 50, ''t5'')]"

section \<open>Properties\<close>

lemmas eval_defs =
  lamp_shop_def lamp_def lamp_rand_def exact_ops_def no_product_def
  bootstrap_platform_def bootstrap_processor_def empty_processor_def register_def
  CardPayment_def BankTransferPayment_def UpiPayment_def CashOnDeliveryPayment_def
  card_pay_def card_complete_def bank_pay_def bank_complete_def upi_pay_def cod_pay_def
  cod_complete_def base_complete_def processor_pay_def processor_complete_def get_receipt_def
  add_to_cart_def remove_from_cart_def checkout_def confirm_payment_def place_order_def
  get_cart_def products_get_def adjust_stock_def add_item_def remove_item_def cart_items_def
  is_empty_def increment_def subtotal_def line_total_def mark_paid_def dict_get_def Let_def

subsection \<open>What \<open>get_cart\<close> leaves alone\<close>

lemma get_cart_frame [simp]:
  "objs (snd (get_cart s u)) = objs s"
  "products (snd (get_cart s u)) = products s"
  "orders (snd (get_cart s u)) = orders s"
  "payment_proc (snd (get_cart s u)) = payment_proc s"
  "categories (snd (get_cart s u)) = categories s"
  by (simp_all add: get_cart_def split: option.splits)

subsection \<open>Stock never goes negative\<close>

lemma adjust_stock_nonneg: "adjust_stock p q = Inr p' \<Longrightarrow> 0 \<le> stock p'"
  by (auto simp: adjust_stock_def Let_def split: if_splits)

lemma restock_nonneg: "0 \<le> stock (h p) \<Longrightarrow> 0 \<le> stock (snd (restock h its) p)"
proof (induction its arbitrary: h)
  case Nil
  then show ?case by simp
next
  case (Cons it its)
  show ?case
  proof (cases "adjust_stock (h (product it)) (quantity it)")
    case (Inl e)
    with Cons.prems show ?thesis by simp
  next
    case (Inr p')
    have "0 \<le> stock ((h(product it := p')) p)"
      using Cons.prems adjust_stock_nonneg [OF Inr] by simp
    then have "0 \<le> stock (snd (restock (h(product it := p')) its) p)"
      by (rule Cons.IH)
    with Inr show ?thesis by simp
  qed
qed

lemma add_to_cart_nonneg:
  "0 \<le> stock (objs s p) \<Longrightarrow> 0 \<le> stock (objs (snd (add_to_cart s u p' q)) p)"
  by (auto simp: add_to_cart_def products_get_def Let_def split_beta
      dest: adjust_stock_nonneg split: option.splits sum.splits if_splits)

lemma remove_from_cart_nonneg:
  "0 \<le> stock (objs s p) \<Longrightarrow> 0 \<le> stock (objs (snd (remove_from_cart s u p' q)) p)"
  by (auto simp: remove_from_cart_def products_get_def Let_def split_beta
      dest: adjust_stock_nonneg split: option.splits sum.splits if_splits)

lemma checkout_nonneg:
  "0 \<le> stock (objs s p) \<Longrightarrow> 0 \<le> stock (objs (snd (checkout s u m k r)) p)"
  using restock_nonneg [of "objs s" p]
  by (auto simp: checkout_def place_order_def Let_def split_beta
      split: option.splits sum.splits if_splits prod.splits)

lemma confirm_payment_nonneg:
  "0 \<le> stock (objs s p) \<Longrightarrow> 0 \<le> stock (objs (snd (confirm_payment s ref kw)) p)"
  using restock_nonneg [of "objs s" p]
  by (auto simp: confirm_payment_def Let_def split_beta
      split: option.splits sum.splits if_splits prod.splits)

lemma step_nonneg:
  "shopping_op x \<Longrightarrow> 0 \<le> stock (objs s p) \<Longrightarrow> 0 \<le> stock (objs (step s x) p)"
  by (cases x)
    (simp_all add: add_to_cart_nonneg remove_from_cart_nonneg checkout_nonneg
      confirm_payment_nonneg)

lemma run_nonneg:
  "list_all shopping_op ops \<Longrightarrow> 0 \<le> stock (objs s p) \<Longrightarrow> 0 \<le> stock (objs (run s ops) p)"
  by (induction ops arbitrary: s) (simp_all add: step_nonneg)

text \<open>
  C5. Take any product and any finite sequence of add-to-cart, remove-from-cart,
  checkout and confirm-payment calls, whether they return or raise. If the product's
  stock is non-negative at the start, it is non-negative after each operation of the
  sequence, that is after every prefix of it.
\<close>

theorem stock_never_negative:
  assumes "list_all shopping_op ops" and "0 \<le> stock (objs s p)"
  shows "0 \<le> stock (objs (run s (take n ops)) p)"
proof -
  have "list_all shopping_op (take n ops)"
    using assms(1) by (auto simp: list_all_iff dest: in_set_takeD)
  then show ?thesis using assms(2) by (rule run_nonneg)
qed

theorem stock_never_negative_witness:
  "list_all shopping_op
     [AddToCart ''alice'' ''p1'' 1, Checkout ''alice'' ''card'' ''o1'' lamp_rand,
      ConfirmPayment ''VISA-01234567'' [''otp'' \<mapsto> VStr ''000000''],
      RemoveFromCart ''alice'' ''p1'' (- 2)]
   \<and> 0 \<le> stock (objs lamp_shop ''p1'')
   \<and> 0 \<le> stock (objs (run lamp_shop (take 4
        [AddToCart ''alice'' ''p1'' 1, Checkout ''alice'' ''card'' ''o1'' lamp_rand,
         ConfirmPayment ''VISA-01234567'' [''otp'' \<mapsto> VStr ''000000''],
         RemoveFromCart ''alice'' ''p1'' (- 2)])) ''p1'')
   \<and> stock (objs (run lamp_shop
        [AddToCart ''alice'' ''p1'' 1, Checkout ''alice'' ''card'' ''o1'' lamp_rand,
         ConfirmPayment ''VISA-01234567'' [''otp'' \<mapsto> VStr ''000000''],
         RemoveFromCart ''alice'' ''p1'' (- 2)]) ''p1'') = 0"
proof -
  have ops: "list_all shopping_op
     [AddToCart ''alice'' ''p1'' 1, Checkout ''alice'' ''card'' ''o1'' lamp_rand,
      ConfirmPayment ''VISA-01234567'' [''otp'' \<mapsto> VStr ''000000''],
      RemoveFromCart ''alice'' ''p1'' (- 2)]"
    by simp
  have start: "0 \<le> stock (objs lamp_shop ''p1'')"
    by (simp add: lamp_shop_def lamp_def)
  have final: "stock (objs (run lamp_shop
        [AddToCart ''alice'' ''p1'' 1, Checkout ''alice'' ''card'' ''o1'' lamp_rand,
         ConfirmPayment ''VISA-01234567'' [''otp'' \<mapsto> VStr ''000000''],
         RemoveFromCart ''alice'' ''p1'' (- 2)]) ''p1'') = 0"
    by (simp add: eval_defs)
  from ops start final stock_never_negative [OF ops start, of 4] show ?thesis
    by blast
qed

subsection \<open>Adding to a cart and removing again\<close>

text \<open>
  C9. For every user, every product of the catalog and every positive quantity \<open>q\<close> not
  above the product's stock, \<open>add_to_cart\<close> followed at once by \<open>remove_from_cart\<close> of
  the same quantity both return, and the product's stock is what it was before the two
  calls (as is every other product object and the catalog).
\<close>

theorem add_then_remove_restores_stock:
  assumes "p \<in> products s" and "0 < q" and "q \<le> stock (objs s p)"
  shows "\<exists>s1 s2. add_to_cart s u p q = (Inr (), s1) \<and> remove_from_cart s1 u p q = (Inr (), s2)
           \<and> stock (objs s2 p) = stock (objs s p) \<and> objs s2 = objs s \<and> products s2 = products s"
  using assms
  by (auto simp: add_to_cart_def remove_from_cart_def products_get_def adjust_stock_def get_cart_def
      Let_def split_beta split: option.splits)

theorem add_then_remove_restores_stock_witness:
  "''p1'' \<in> products lamp_shop \<and> (0::int) < 2 \<and> 2 \<le> stock (objs lamp_shop ''p1'') \<and>
   (\<exists>s1 s2. add_to_cart lamp_shop ''alice'' ''p1'' 2 = (Inr (), s1) \<and>
      remove_from_cart s1 ''alice'' ''p1'' 2 = (Inr (), s2) \<and>
      stock (objs s1 ''p1'') = 0 \<and> stock (objs s2 ''p1'') = 2)"
proof -
  have a: "''p1'' \<in> products lamp_shop"
    by (simp add: lamp_shop_def)
  have b: "2 \<le> stock (objs lamp_shop ''p1'')"
    by (simp add: lamp_shop_def lamp_def)
  have c: "stock (objs (snd (add_to_cart lamp_shop ''alice'' ''p1'' 2)) ''p1'') = 0"
    by (simp add: eval_defs)
  have "\<exists>s1 s2. add_to_cart lamp_shop ''alice'' ''p1'' 2 = (Inr (), s1) \<and>
      remove_from_cart s1 ''alice'' ''p1'' 2 = (Inr (), s2) \<and>
      stock (objs s2 ''p1'') = stock (objs lamp_shop ''p1'') \<and>
      objs s2 = objs lamp_shop \<and> products s2 = products lamp_shop"
    using a b by (intro add_then_remove_restores_stock) simp_all
  then obtain s1 s2 where
    "add_to_cart lamp_shop ''alice'' ''p1'' 2 = (Inr (), s1)"
    "remove_from_cart s1 ''alice'' ''p1'' 2 = (Inr (), s2)"
    "stock (objs s2 ''p1'') = stock (objs lamp_shop ''p1'')"
    by blast
  moreover from this(1) c have "stock (objs s1 ''p1'') = 0"
    by simp
  moreover have "stock (objs lamp_shop ''p1'') = 2"
    by (simp add: lamp_shop_def lamp_def)
  ultimately show ?thesis using a b by auto
qed

subsection \<open>Every placed order has a stored receipt\<close>

lemma list_all_update:
  "list_all P xs \<Longrightarrow> P (k, v) \<Longrightarrow> list_all P (AList.update k v xs)"
  by (induction xs) auto

lemma has_receipt_iff:
  "has_receipt pp ord \<longleftrightarrow> (\<exists>ref. payment_reference ord = Some ref \<and> ref \<in> dom (transactions pp))"
  by (auto simp: has_receipt_def get_receipt_def split: option.splits sum.splits)

lemma has_receipt_mono:
  "has_receipt pp ord \<Longrightarrow> dom (transactions pp) \<subseteq> dom (transactions pp') \<Longrightarrow> has_receipt pp' ord"
  unfolding has_receipt_iff by blast

lemma processor_pay_grows:
  "dom (transactions pp) \<subseteq> dom (transactions (snd (processor_pay pp h m ord r)))"
  by (auto simp: processor_pay_def split: option.splits sum.splits)

lemma processor_complete_grows:
  "dom (transactions pp) \<subseteq> dom (transactions (snd (processor_complete pp ref kw)))"
  by (auto simp: processor_complete_def split: option.splits sum.splits)

lemma processor_pay_stores:
  "fst (processor_pay pp h m ord r) = Inr receipt
     \<Longrightarrow> get_receipt (snd (processor_pay pp h m ord r)) (reference receipt) = Inr receipt"
  by (auto simp: processor_pay_def get_receipt_def split: option.splits sum.splits)

lemma processor_complete_known:
  "fst (processor_complete pp ref kw) = Inr receipt
     \<Longrightarrow> ref \<in> dom (transactions (snd (processor_complete pp ref kw)))"
  by (auto simp: processor_complete_def split: option.splits sum.splits if_splits)

lemma all_have_receipts_mono:
  "list_all (\<lambda>(k, ord). has_receipt pp ord) xs
     \<Longrightarrow> dom (transactions pp) \<subseteq> dom (transactions pp')
     \<Longrightarrow> list_all (\<lambda>(k, ord). has_receipt pp' ord) xs"
  by (induction xs) (auto intro: has_receipt_mono)

lemma checkout_stores_order:
  assumes "checkout s u m k r = (Inr ord, s')"
  shows "map_of (orders s') (order_id ord) = Some ord \<and>
         (\<exists>receipt. payment_reference ord = Some (reference receipt) \<and>
            get_receipt (payment_proc s') (reference receipt) = Inr receipt)"
  using assms
  by (auto simp: checkout_def place_order_def Let_def split_beta mark_paid_def update_Some_unfold
      dest!: processor_pay_stores
      split: option.splits sum.splits if_splits prod.splits)

lemma checkout_keeps_receipts:
  assumes "orders_have_receipts s"
  shows "orders_have_receipts (snd (checkout s u m k r))"
proof (cases "checkout s u m k r")
  case (Pair res s')
  have grow: "dom (transactions (payment_proc s)) \<subseteq> dom (transactions (payment_proc s'))"
    using Pair
    by (auto simp: checkout_def place_order_def processor_pay_def Let_def split_beta
        split: option.splits sum.splits if_splits prod.splits)
  have old: "list_all (\<lambda>(k, ord). has_receipt (payment_proc s') ord) (orders s)"
    using assms grow unfolding orders_have_receipts_def by (rule all_have_receipts_mono)
  show ?thesis
  proof (cases res)
    case (Inl e)
    then have "orders s' = orders s"
      using Pair
      by (auto simp: checkout_def place_order_def Let_def split_beta
          split: option.splits sum.splits if_splits prod.splits)
    with old Pair show ?thesis by (simp add: orders_have_receipts_def)
  next
    case (Inr ord)
    with Pair have co: "checkout s u m k r = (Inr ord, s')" by simp
    have upd: "orders s' = AList.update (order_id ord) ord (orders s)"
      using co
      by (auto simp: checkout_def place_order_def Let_def split_beta
          split: option.splits sum.splits if_splits prod.splits)
    have "has_receipt (payment_proc s') ord"
      using checkout_stores_order [OF co] by (auto simp: has_receipt_def)
    with old upd Pair show ?thesis
      by (simp add: orders_have_receipts_def list_all_update)
  qed
qed


lemma confirm_payment_proc:
  "payment_proc (snd (confirm_payment s ref kw)) = snd (processor_complete (payment_proc s) ref kw)"
  by (auto simp: confirm_payment_def Let_def split_beta
      split: option.splits sum.splits if_splits prod.splits)

lemma confirm_payment_orders:
  "orders (snd (confirm_payment s ref kw)) = orders s \<or>
   (\<exists>k ord' receipt. orders (snd (confirm_payment s ref kw)) = AList.update k ord' (orders s) \<and>
       payment_reference ord' = Some ref \<and>
       fst (processor_complete (payment_proc s) ref kw) = Inr receipt)"
proof (cases "fst (processor_complete (payment_proc s) ref kw)")
  case (Inl e)
  then show ?thesis by (simp add: confirm_payment_def Let_def split_beta)
next
  case (Inr receipt)
  show ?thesis
  proof (cases "find (\<lambda>(k, ord). payment_reference ord = Some ref) (orders s)")
    case None
    with Inr show ?thesis by (simp add: confirm_payment_def Let_def split_beta)
  next
    case (Some found)
    obtain k ord where found: "found = (k, ord)" by (cases found)
    have ref: "payment_reference ord = Some ref"
      using Some found by (auto simp: find_Some_iff)
    define ord' where
      "ord' = (if receipt_status receipt = PAY_SUCCESS then mark_paid ord ref
               else ord\<lparr>status := FAILED\<rparr>)"
    have "orders (snd (confirm_payment s ref kw)) = AList.update k ord' (orders s)"
      using Inr Some found
      by (simp add: confirm_payment_def Let_def split_beta ord'_def split: prod.splits sum.splits)
    moreover have "payment_reference ord' = Some ref"
      using ref by (simp add: ord'_def mark_paid_def)
    ultimately show ?thesis using Inr by blast
  qed
qed

lemma confirm_payment_keeps_receipts:
  assumes "orders_have_receipts s"
  shows "orders_have_receipts (snd (confirm_payment s ref kw))"
proof -
  let ?pp = "snd (processor_complete (payment_proc s) ref kw)"
  have old: "list_all (\<lambda>(k, ord). has_receipt ?pp ord) (orders s)"
    using assms processor_complete_grows unfolding orders_have_receipts_def
    by (rule all_have_receipts_mono)
  from confirm_payment_orders [of s ref kw] show ?thesis
  proof
    assume "orders (snd (confirm_payment s ref kw)) = orders s"
    with old show ?thesis by (simp add: orders_have_receipts_def confirm_payment_proc)
  next
    assume "\<exists>k ord' receipt. orders (snd (confirm_payment s ref kw)) = AList.update k ord' (orders s) \<and>
       payment_reference ord' = Some ref \<and>
       fst (processor_complete (payment_proc s) ref kw) = Inr receipt"
    then obtain k ord' receipt where
      upd: "orders (snd (confirm_payment s ref kw)) = AList.update k ord' (orders s)" and
      ref: "payment_reference ord' = Some ref" and
      ok: "fst (processor_complete (payment_proc s) ref kw) = Inr receipt"
      by blast
    have "has_receipt ?pp ord'"
      using ref processor_complete_known [OF ok] by (auto simp: has_receipt_iff)
    with old upd show ?thesis
      by (simp add: orders_have_receipts_def confirm_payment_proc list_all_update)
  qed
qed

lemma cart_ops_keep_receipts:
  "orders_have_receipts s \<Longrightarrow> orders_have_receipts (snd (add_to_cart s u p q))"
  "orders_have_receipts s \<Longrightarrow> orders_have_receipts (snd (remove_from_cart s u p q))"
  by (auto simp: orders_have_receipts_def add_to_cart_def remove_from_cart_def Let_def split_beta
      split: option.splits sum.splits)

lemma admin_ops_keep_receipts:
  "orders_have_receipts s \<Longrightarrow> orders_have_receipts (snd (create_category s nm d a i))"
  "orders_have_receipts s \<Longrightarrow> orders_have_receipts (snd (delete_category s c a))"
  "orders_have_receipts s \<Longrightarrow> orders_have_receipts (snd (add_product s nm pr st c a i))"
  "orders_have_receipts s \<Longrightarrow> orders_have_receipts (snd (remove_product s p a))"
  by (auto simp: orders_have_receipts_def create_category_def delete_category_def add_product_def
      remove_product_def split: sum.splits)

lemma step_keeps_receipts:
  "orders_have_receipts s \<Longrightarrow> orders_have_receipts (step s x)"
  by (cases x)
    (simp_all add: cart_ops_keep_receipts admin_ops_keep_receipts checkout_keeps_receipts
      confirm_payment_keeps_receipts, simp add: orders_have_receipts_def)

lemma run_keeps_receipts:
  "orders_have_receipts s \<Longrightarrow> orders_have_receipts (run s ops)"
  by (induction ops arbitrary: s) (simp_all add: step_keeps_receipts)

text \<open>
  C10. Whenever \<open>checkout\<close> returns an order, whatever its status, the order is stored
  under its id, its payment reference is the reference of the receipt that the payment
  processor stored, and \<open>get_receipt\<close> on that reference returns that receipt. No later
  operation loses it: if every order stored before the checkout had a retrievable
  receipt, so has every stored order after any further sequence of operations.
\<close>

theorem placed_orders_have_receipts:
  assumes "checkout s u m k r = (Inr ord, s')"
  shows "map_of (orders s') (order_id ord) = Some ord \<and>
         (\<exists>receipt. payment_reference ord = Some (reference receipt) \<and>
            get_receipt (payment_proc s') (reference receipt) = Inr receipt) \<and>
         (orders_have_receipts s \<longrightarrow> (\<forall>ops. orders_have_receipts (run s' ops)))"
proof -
  have "orders_have_receipts s \<Longrightarrow> orders_have_receipts (run s' ops)" for ops
    using checkout_keeps_receipts [of s u m k r] assms by (simp add: run_keeps_receipts)
  with checkout_stores_order [OF assms] show ?thesis by blast
qed

theorem placed_orders_have_receipts_witness:
  "upi_checkout = (Inr (lamp_order PAID ''UPI-0123456789''), snd upi_checkout) \<and>
   map_of (orders (snd upi_checkout)) ''o1'' = Some (lamp_order PAID ''UPI-0123456789'') \<and>
   (\<exists>receipt. get_receipt (payment_proc (snd upi_checkout)) ''UPI-0123456789'' = Inr receipt \<and>
      reference receipt = ''UPI-0123456789'') \<and>
   orders_have_receipts lamp_in_cart \<and>
   orders_have_receipts (run (snd upi_checkout)
     [AddToCart ''alice'' ''p1'' 1, Checkout ''alice'' ''card'' ''o2'' lamp_rand,
      ConfirmPayment ''VISA-01234567'' wrong_otp])"
proof -
  have "fst upi_checkout = Inr (lamp_order PAID ''UPI-0123456789'')"
    by (simp add: upi_checkout_def lamp_in_cart_def lamp_order_def eval_defs)
  then have co: "upi_checkout = (Inr (lamp_order PAID ''UPI-0123456789''), snd upi_checkout)"
    by (simp add: prod_eq_iff)
  have before: "orders_have_receipts lamp_in_cart"
    by (simp add: orders_have_receipts_def lamp_in_cart_def eval_defs)
  have fields: "order_id (lamp_order PAID ''UPI-0123456789'') = ''o1''"
    "payment_reference (lamp_order PAID ''UPI-0123456789'') = Some ''UPI-0123456789''"
    by (simp_all add: lamp_order_def)
  note facts =
    placed_orders_have_receipts [OF co [unfolded upi_checkout_def], folded upi_checkout_def]
  from facts have stored:
    "map_of (orders (snd upi_checkout)) ''o1'' = Some (lamp_order PAID ''UPI-0123456789'')"
    by (simp add: fields)
  from facts obtain receipt where
    "get_receipt (payment_proc (snd upi_checkout)) (reference receipt) = Inr receipt"
    "reference receipt = ''UPI-0123456789''"
    by (auto simp: fields)
  then have found: "\<exists>receipt.
      get_receipt (payment_proc (snd upi_checkout)) ''UPI-0123456789'' = Inr receipt \<and>
      reference receipt = ''UPI-0123456789''"
    by auto
  from facts before have later: "orders_have_receipts (run (snd upi_checkout) ops)" for ops
    by blast
  from co stored found before later show ?thesis
    by blast
qed

subsection \<open>What a placed order keeps\<close>

lemma checkout_orders:
  "orders (snd (checkout s u m k r)) = orders s \<or>
   (\<exists>ord. fst (checkout s u m k r) = Inr ord \<and> order_id ord = k \<and>
      orders (snd (checkout s u m k r)) = AList.update k ord (orders s))"
  by (auto simp: checkout_def place_order_def mark_paid_def Let_def split_beta
      split: option.splits sum.splits if_splits prod.splits)

lemma checkout_returns_stored:
  "checkout s u m k r = (Inr ord, s') \<Longrightarrow> orders s' = AList.update k ord (orders s)"
  by (auto simp: checkout_def place_order_def mark_paid_def Let_def split_beta
      split: option.splits sum.splits if_splits prod.splits)

lemma confirm_payment_items:
  "orders (snd (confirm_payment s ref kw)) = orders s \<or>
   (\<exists>k ord ord'. orders (snd (confirm_payment s ref kw)) = AList.update k ord' (orders s) \<and>
       (k, ord) \<in> set (orders s) \<and> items ord' = items ord)"
proof (cases "fst (processor_complete (payment_proc s) ref kw)")
  case (Inl e)
  then show ?thesis by (simp add: confirm_payment_def Let_def split_beta)
next
  case (Inr receipt)
  show ?thesis
  proof (cases "find (\<lambda>(k, ord). payment_reference ord = Some ref) (orders s)")
    case None
    with Inr show ?thesis by (simp add: confirm_payment_def Let_def split_beta)
  next
    case (Some found)
    obtain k ord where found: "found = (k, ord)" by (cases found)
    have mem: "(k, ord) \<in> set (orders s)"
      using Some found by (metis find_Some_iff nth_mem)
    define ord' where
      "ord' = (if receipt_status receipt = PAY_SUCCESS then mark_paid ord ref
               else ord\<lparr>status := FAILED\<rparr>)"
    have "orders (snd (confirm_payment s ref kw)) = AList.update k ord' (orders s)"
      using Inr Some found
      by (simp add: confirm_payment_def Let_def split_beta ord'_def split: prod.splits sum.splits)
    moreover have "items ord' = items ord"
      by (simp add: ord'_def mark_paid_def)
    ultimately show ?thesis using mem by blast
  qed
qed

lemma other_ops_orders:
  "orders (snd (add_to_cart s u p q)) = orders s"
  "orders (snd (remove_from_cart s u p q)) = orders s"
  "orders (snd (create_category s nm d a i)) = orders s"
  "orders (snd (delete_category s c a)) = orders s"
  "orders (snd (add_product s nm pr st c a i)) = orders s"
  "orders (snd (remove_product s p a)) = orders s"
  by (auto simp: add_to_cart_def remove_from_cart_def create_category_def delete_category_def
      add_product_def remove_product_def Let_def split_beta split: option.splits sum.splits)

lemma step_keeps_items:
  assumes "keeps_items (orders s) k ord"
    and "case x of Checkout u m new_id r \<Rightarrow> map_of (orders s) new_id = None | _ \<Rightarrow> True"
  shows "keeps_items (orders (step s x)) k ord"
proof (cases x)
  case (Checkout u m new_id r)
  with assms(2) have fresh: "map_of (orders s) new_id = None" by simp
  from assms(1) have "new_id \<noteq> k" using fresh by (auto simp: keeps_items_def)
  with checkout_orders [of s u m new_id r] assms(1) Checkout show ?thesis
    by (auto simp: keeps_items_def distinct_update update_conv' split: option.splits)
next
  case (ConfirmPayment ref kw)
  from confirm_payment_items [of s ref kw] show ?thesis
  proof
    assume "orders (snd (confirm_payment s ref kw)) = orders s"
    with assms(1) ConfirmPayment show ?thesis by simp
  next
    assume "\<exists>k ord ord'. orders (snd (confirm_payment s ref kw)) = AList.update k ord' (orders s) \<and>
       (k, ord) \<in> set (orders s) \<and> items ord' = items ord"
    then obtain k' o1 o2 where
      upd: "orders (snd (confirm_payment s ref kw)) = AList.update k' o2 (orders s)" and
      mem: "(k', o1) \<in> set (orders s)" and same: "items o2 = items o1"
      by blast
    from assms(1) have d: "distinct (map fst (orders s))" by (simp add: keeps_items_def)
    from d mem have at_k': "map_of (orders s) k' = Some o1" by simp
    from assms(1) obtain o0 where at_k: "map_of (orders s) k = Some o0" and o0: "items o0 = items ord"
      by (auto simp: keeps_items_def split: option.splits)
    have "\<exists>o3. map_of (AList.update k' o2 (orders s)) k = Some o3 \<and> items o3 = items ord"
    proof (cases "k = k'")
      case True
      with at_k at_k' have "o0 = o1" by simp
      with True same o0 show ?thesis by (simp add: update_conv')
    next
      case False
      with at_k o0 show ?thesis by (simp add: update_conv')
    qed
    with d upd ConfirmPayment show ?thesis
      by (auto simp: keeps_items_def distinct_update)
  qed
qed (use assms(1) in \<open>simp_all add: other_ops_orders\<close>)

lemma run_keeps_items:
  "keeps_items (orders s) k ord \<Longrightarrow> fresh_order_ids s ops \<Longrightarrow> keeps_items (orders (run s ops)) k ord"
proof (induction ops arbitrary: s)
  case Nil
  then show ?case by simp
next
  case (Cons x xs)
  from Cons.prems have "keeps_items (orders (step s x)) k ord"
    by (intro step_keeps_items) simp_all
  with Cons show ?case by simp
qed

lemma sum_line_totals_cong:
  "\<forall>it \<in> set its. price (h' (product it)) = price (h (product it)) \<Longrightarrow>
   sum_line_totals ar h' acc its = sum_line_totals ar h acc its"
  by (induction its arbitrary: acc) (auto simp: line_total_def split: sum.splits)

lemma subtotal_cong:
  "items ord' = items ord \<Longrightarrow>
   \<forall>it \<in> set (items ord). price (h' (product it)) = price (h (product it)) \<Longrightarrow>
   subtotal ar h' ord' = subtotal ar h ord"
  by (simp add: subtotal_def sum_line_totals_cong)

text \<open>
  C2, as amended. Take an order that \<open>checkout\<close> has returned, and any later sequence
  of operations, price changes on live products included, in which order ids are not
  reused. The order is still stored under its id with the item list it was created
  with, products and quantities alike. Its subtotal is not stored: it is recomputed from
  the current prices of the products the order references, whatever the decimal
  arithmetic, and so it is the subtotal at creation whenever those prices are what they
  were then.
\<close>

theorem order_items_frozen:
  assumes "checkout s0 u m k r = (Inr ord, s)"
    and "distinct (map fst (orders s0))"
    and "fresh_order_ids s ops"
  shows "\<exists>ord'. map_of (orders (run s ops)) k = Some ord' \<and>
           items ord' = items ord \<and>
           ((\<forall>it \<in> set (items ord).
               price (objs (run s ops) (product it)) = price (objs s (product it)))
             \<longrightarrow> (\<forall>ar. subtotal ar (objs (run s ops)) ord' = subtotal ar (objs s) ord))"
proof -
  have upd: "orders s = AList.update k ord (orders s0)"
    using assms(1) by (rule checkout_returns_stored)
  have "keeps_items (orders s) k ord"
    using assms(2) by (simp add: upd keeps_items_def distinct_update update_conv')
  from run_keeps_items [OF this assms(3)]
  obtain ord' where o': "map_of (orders (run s ops)) k = Some ord'" and it: "items ord' = items ord"
    by (auto simp: keeps_items_def split: option.splits)
  with subtotal_cong [OF it] show ?thesis by blast
qed

theorem order_items_frozen_witness:
  "upi_checkout = (Inr (lamp_order PAID ''UPI-0123456789''), snd upi_checkout) \<and>
   distinct (map fst (orders lamp_in_cart)) \<and>
   fresh_order_ids (snd upi_checkout)
     [SetPrice ''p1'' 45, AddToCart ''alice'' ''p1'' 1,
      Checkout ''alice'' ''card'' ''o2'' lamp_rand, SetPrice ''p1'' 30] \<and>
   subtotal exact_ops (objs (snd upi_checkout)) (lamp_order PAID ''UPI-0123456789'') = Inr 30 \<and>
   (\<exists>ord'. map_of (orders (run (snd upi_checkout)
        [SetPrice ''p1'' 45, AddToCart ''alice'' ''p1'' 1,
         Checkout ''alice'' ''card'' ''o2'' lamp_rand, SetPrice ''p1'' 30])) ''o1'' = Some ord' \<and>
      items ord' = [\<lparr>product = ''p1'', quantity = 1\<rparr>] \<and>
      subtotal exact_ops (objs (run (snd upi_checkout)
        [SetPrice ''p1'' 45, AddToCart ''alice'' ''p1'' 1,
         Checkout ''alice'' ''card'' ''o2'' lamp_rand, SetPrice ''p1'' 30])) ord' = Inr 30)"
proof -
  let ?ops = "[SetPrice ''p1'' 45, AddToCart ''alice'' ''p1'' 1,
      Checkout ''alice'' ''card'' ''o2'' lamp_rand, SetPrice ''p1'' 30]"
  have "fst upi_checkout = Inr (lamp_order PAID ''UPI-0123456789'')"
    by (simp add: upi_checkout_def lamp_in_cart_def lamp_order_def eval_defs)
  then have co: "upi_checkout = (Inr (lamp_order PAID ''UPI-0123456789''), snd upi_checkout)"
    by (simp add: prod_eq_iff)
  have d: "distinct (map fst (orders lamp_in_cart))"
    by (simp add: lamp_in_cart_def eval_defs)
  have f: "fresh_order_ids (snd upi_checkout) ?ops"
    by (simp add: upi_checkout_def lamp_in_cart_def eval_defs)
  have pr: "price (objs (run (snd upi_checkout) ?ops) ''p1'') = 30"
    by (simp add: upi_checkout_def lamp_in_cart_def eval_defs)
  have pr0: "price (objs (snd upi_checkout) ''p1'') = 30"
    by (simp add: upi_checkout_def lamp_in_cart_def eval_defs)
  have its: "items (lamp_order PAID ''UPI-0123456789'') = [\<lparr>product = ''p1'', quantity = 1\<rparr>]"
    by (simp add: lamp_order_def)
  have sub: "subtotal exact_ops (objs (snd upi_checkout)) (lamp_order PAID ''UPI-0123456789'') = Inr 30"
    by (simp add: subtotal_def line_total_def exact_ops_def its pr0)
  from order_items_frozen [OF co [unfolded upi_checkout_def] d f [unfolded upi_checkout_def],
      folded upi_checkout_def]
  obtain ord' where
    stored: "map_of (orders (run (snd upi_checkout) ?ops)) ''o1'' = Some ord'" and
    same: "items ord' = items (lamp_order PAID ''UPI-0123456789'')" and
    cond: "(\<forall>it \<in> set (items (lamp_order PAID ''UPI-0123456789'')).
        price (objs (run (snd upi_checkout) ?ops) (product it)) =
        price (objs (snd upi_checkout) (product it))) \<longrightarrow>
      (\<forall>ar. subtotal ar (objs (run (snd upi_checkout) ?ops)) ord' =
        subtotal ar (objs (snd upi_checkout)) (lamp_order PAID ''UPI-0123456789''))"
    by blast
  from cond have "\<forall>ar. subtotal ar (objs (run (snd upi_checkout) ?ops)) ord' =
      subtotal ar (objs (snd upi_checkout)) (lamp_order PAID ''UPI-0123456789'')"
    by (simp only: its pr pr0 list.set ball_simps cart_item.simps simp_thms)
  then have "subtotal exact_ops (objs (run (snd upi_checkout) ?ops)) ord' = Inr 30"
    by (simp only: sub)
  with stored same its sub co d f show ?thesis
    by (intro conjI exI [of _ ord']) simp_all
qed

theorem order_subtotal_follows_price:
  "fst upi_checkout = Inr (lamp_order PAID ''UPI-0123456789'') \<and>
   subtotal exact_ops (objs (snd upi_checkout)) (lamp_order PAID ''UPI-0123456789'') = Inr 30 \<and>
   map_of (orders (run (snd upi_checkout) [SetPrice ''p1'' 45])) ''o1''
     = Some (lamp_order PAID ''UPI-0123456789'') \<and>
   subtotal exact_ops (objs (run (snd upi_checkout) [SetPrice ''p1'' 45]))
     (lamp_order PAID ''UPI-0123456789'') = Inr 45 \<and>
   subtotal exact_ops (objs (run (snd upi_checkout) [SetPrice ''p1'' 45]))
     (lamp_order PAID ''UPI-0123456789'')
     \<noteq> subtotal exact_ops (objs (snd upi_checkout)) (lamp_order PAID ''UPI-0123456789'')"
  by (simp add: upi_checkout_def lamp_in_cart_def lamp_order_def eval_defs)

subsection \<open>Checkout with an unknown payment method; malformed input\<close>

text \<open>
  C7, as amended. If the payment method is not registered, \<open>checkout\<close> fails: with
  \<open>PaymentError\<close> when the user's cart is not empty, and then the platform is exactly as
  before; with \<open>ValueError\<close> when the cart is empty, the emptiness check coming first.
  Either way no order is added, no product or receipt changes, and every cart holds what
  it held.
\<close>

theorem checkout_unknown_method:
  assumes "strategies (payment_proc s) m = None"
  shows "fst (checkout s u m k r) =
           Inl (if is_empty (fst (get_cart s u)) then ValueError else PaymentError) \<and>
         (\<not> is_empty (fst (get_cart s u)) \<longrightarrow> snd (checkout s u m k r) = s) \<and>
         orders (snd (checkout s u m k r)) = orders s \<and>
         objs (snd (checkout s u m k r)) = objs s \<and>
         products (snd (checkout s u m k r)) = products s \<and>
         payment_proc (snd (checkout s u m k r)) = payment_proc s \<and>
         (\<forall>v. fst (get_cart (snd (checkout s u m k r)) v) = fst (get_cart s v))"
  using assms
  by (auto simp: checkout_def processor_pay_def get_cart_def is_empty_def Let_def
      split: option.splits)

theorem checkout_unknown_method_witness:
  "strategies (payment_proc lamp_in_cart) ''paypal'' = None \<and>
   \<not> is_empty (fst (get_cart lamp_in_cart ''alice'')) \<and>
   checkout lamp_in_cart ''alice'' ''paypal'' ''o1'' lamp_rand = (Inl PaymentError, lamp_in_cart)"
proof -
  have a: "strategies (payment_proc lamp_in_cart) ''paypal'' = None"
    by (simp add: lamp_in_cart_def eval_defs)
  have b: "\<not> is_empty (fst (get_cart lamp_in_cart ''alice''))"
    by (simp add: lamp_in_cart_def eval_defs)
  from checkout_unknown_method [OF a, of "''alice''" "''o1''" lamp_rand] b
  have "fst (checkout lamp_in_cart ''alice'' ''paypal'' ''o1'' lamp_rand) = Inl PaymentError"
    and "snd (checkout lamp_in_cart ''alice'' ''paypal'' ''o1'' lamp_rand) = lamp_in_cart"
    by simp_all
  with a b show ?thesis by (simp add: prod_eq_iff)
qed

theorem checkout_unknown_method_empty_cart:
  "strategies (payment_proc lamp_shop) ''paypal'' = None \<and>
   fst (checkout lamp_shop ''alice'' ''paypal'' ''o1'' lamp_rand) = Inl ValueError \<and>
   fst (checkout lamp_shop ''alice'' ''paypal'' ''o1'' lamp_rand) \<noteq> Inl PaymentError"
  by (simp add: eval_defs)

text \<open>
  \<open>checkout\<close> on an empty cart fails with \<open>ValueError\<close>; it adds no order, changes no
  product, receipt or category, and every cart holds what it held (the user's cart is
  created empty if it did not exist).
\<close>

lemma empty_cart_checkout_rejected:
  assumes "is_empty (fst (get_cart s u))"
  shows "fst (checkout s u m k r) = Inl ValueError \<and>
         orders (snd (checkout s u m k r)) = orders s \<and>
         objs (snd (checkout s u m k r)) = objs s \<and>
         products (snd (checkout s u m k r)) = products s \<and>
         payment_proc (snd (checkout s u m k r)) = payment_proc s \<and>
         categories (snd (checkout s u m k r)) = categories s \<and>
         (\<forall>v. fst (get_cart (snd (checkout s u m k r)) v) = fst (get_cart s v))"
  using assms
  by (auto simp: checkout_def get_cart_def is_empty_def Let_def split: option.splits)

text \<open>
  C8. With two lamps in stock and no cart, \<open>add_to_cart\<close> of the quantity -1 returns
  normally, leaves three lamps in stock and a line of quantity -1 in the cart;
  \<open>add_to_cart\<close> of the quantity 0 returns normally and leaves a line of quantity 0;
  \<open>remove_from_cart\<close> of the quantity -1 returns normally and leaves one lamp in stock.
  None of them fails with \<open>ValueError\<close>.
\<close>

theorem nonpositive_quantity_accepted:
  "stock (objs lamp_shop ''p1'') = 2 \<and>
   fst (add_to_cart lamp_shop ''alice'' ''p1'' (- 1)) = Inr () \<and>
   stock (objs (snd (add_to_cart lamp_shop ''alice'' ''p1'' (- 1))) ''p1'') = 3 \<and>
   carts (snd (add_to_cart lamp_shop ''alice'' ''p1'' (- 1))) ''alice''
     = Some [(''p1'', \<lparr>product = ''p1'', quantity = - 1\<rparr>)] \<and>
   fst (add_to_cart lamp_shop ''alice'' ''p1'' 0) = Inr () \<and>
   carts (snd (add_to_cart lamp_shop ''alice'' ''p1'' 0)) ''alice''
     = Some [(''p1'', \<lparr>product = ''p1'', quantity = 0\<rparr>)] \<and>
   fst (remove_from_cart lamp_shop ''alice'' ''p1'' (- 1)) = Inr () \<and>
   stock (objs (snd (remove_from_cart lamp_shop ''alice'' ''p1'' (- 1))) ''p1'') = 1"
  by (simp add: eval_defs)

subsection \<open>Confirming a payment twice\<close>

text \<open>
  On a card receipt that still carries its one-time code, \<open>card_complete\<close> succeeds
  exactly when the caller's code is that code, and marks the receipt failed otherwise.
\<close>

lemma card_complete_matches_code:
  assumes "metadata receipt ''otp'' = Some (VStr code)"
  shows "\<exists>receipt'. card_complete receipt kw = Inr receipt' \<and>
           receipt_status receipt' =
             (if kw ''otp'' = Some (VStr code) then PAY_SUCCESS else PAY_FAILED)"
  using assms
  by (auto simp: card_complete_def dict_get_def Let_def split: option.splits)

text \<open>
  No operation other than \<open>confirm_payment\<close> touches a stored order: a step that is
  not a confirmation, and does not reuse the order's id, leaves the order as it is.
\<close>

lemma other_steps_keep_orders:
  assumes "\<forall>ref kw. x \<noteq> ConfirmPayment ref kw"
    and "case x of Checkout u m new_id r \<Rightarrow> new_id \<noteq> k | _ \<Rightarrow> True"
  shows "map_of (orders (step s x)) k = map_of (orders s) k"
proof (cases x)
  case (Checkout u m new_id r)
  with assms(2) have "new_id \<noteq> k" by simp
  with checkout_orders [of s u m new_id r] Checkout show ?thesis
    by (auto simp: update_conv')
qed (use assms(1) in \<open>simp_all add: other_ops_orders\<close>)

text \<open>
  C1. The order of the card checkout is \<open>CREATED\<close>; a confirmation with a wrong code
  makes it \<open>FAILED\<close> and restocks the lamp; a second confirmation on the same reference,
  with the right code, makes the \<open>FAILED\<close> order \<open>PAID\<close>, the stock staying restocked.
\<close>

theorem failed_order_becomes_paid:
  "fst card_checkout = Inr (lamp_order CREATED ''VISA-01234567'') \<and>
   stock (objs (snd card_checkout) ''p1'') = 1 \<and>
   map_of (orders (run (snd card_checkout) [ConfirmPayment ''VISA-01234567'' wrong_otp])) ''o1''
     = Some (lamp_order FAILED ''VISA-01234567'') \<and>
   stock (objs (run (snd card_checkout) [ConfirmPayment ''VISA-01234567'' wrong_otp]) ''p1'') = 2 \<and>
   fst (confirm_payment (run (snd card_checkout) [ConfirmPayment ''VISA-01234567'' wrong_otp])
          ''VISA-01234567'' right_otp)
     = Inr (lamp_order PAID ''VISA-01234567'') \<and>
   map_of (orders (run (snd card_checkout)
       [ConfirmPayment ''VISA-01234567'' wrong_otp, ConfirmPayment ''VISA-01234567'' right_otp])) ''o1''
     = Some (lamp_order PAID ''VISA-01234567'') \<and>
   stock (objs (run (snd card_checkout)
       [ConfirmPayment ''VISA-01234567'' wrong_otp, ConfirmPayment ''VISA-01234567'' right_otp]) ''p1'') = 2"
  by (simp add: card_checkout_def lamp_in_cart_def lamp_order_def wrong_otp_def right_otp_def
      eval_defs)

text \<open>
  C3. The card receipt is pending and carries the code 123456. A confirmation with
  000000 marks it failed and leaves the code in the metadata; a further confirmation on
  the same reference with 123456 then succeeds.
\<close>

theorem card_code_survives_failed_attempt:
  "map_option receipt_status (transactions card_pending ''VISA-01234567'') = Some PAY_PENDING \<and>
   map_option (\<lambda>rc. metadata rc ''otp'') (transactions card_pending ''VISA-01234567'')
     = Some (Some (VStr ''123456'')) \<and>
   map_option receipt_status (transactions card_failed ''VISA-01234567'') = Some PAY_FAILED \<and>
   map_option (\<lambda>rc. metadata rc ''otp'') (transactions card_failed ''VISA-01234567'')
     = Some (Some (VStr ''123456'')) \<and>
   map_sum (\<lambda>e. e) receipt_status (fst (processor_complete card_failed ''VISA-01234567'' right_otp))
     = Inr PAY_SUCCESS \<and>
   map_option receipt_status
     (transactions (snd (processor_complete card_failed ''VISA-01234567'' right_otp)) ''VISA-01234567'')
     = Some PAY_SUCCESS"
  by (simp add: card_failed_def card_pending_def card_checkout_def lamp_in_cart_def
      wrong_otp_def right_otp_def eval_defs)

text \<open>A second failed confirmation runs the compensation a second time.\<close>

lemma second_failed_confirmation_restocks_again:
  "stock (objs (run (snd card_checkout) [ConfirmPayment ''VISA-01234567'' wrong_otp]) ''p1'') = 2 \<and>
   stock (objs (run (snd card_checkout)
     [ConfirmPayment ''VISA-01234567'' wrong_otp, ConfirmPayment ''VISA-01234567'' wrong_otp]) ''p1'') = 3"
  by (simp add: card_checkout_def lamp_in_cart_def wrong_otp_def eval_defs)

subsection \<open>Removing what the cart does not hold\<close>

text \<open>
  C4. With no cart and no order anywhere and two lamps in stock, \<open>remove_from_cart\<close> of
  three lamps returns normally and leaves five in stock, still with nothing in any cart
  or order. With one lamp in Alice's cart and one in stock, removing two leaves an empty
  cart and three in stock.
\<close>

theorem remove_absent_item_inflates_stock:
  "carts lamp_shop = Map.empty \<and> orders lamp_shop = [] \<and> stock (objs lamp_shop ''p1'') = 2 \<and>
   fst (remove_from_cart lamp_shop ''alice'' ''p1'' 3) = Inr () \<and>
   carts (snd (remove_from_cart lamp_shop ''alice'' ''p1'' 3)) = [''alice'' \<mapsto> []] \<and>
   orders (snd (remove_from_cart lamp_shop ''alice'' ''p1'' 3)) = [] \<and>
   stock (objs (snd (remove_from_cart lamp_shop ''alice'' ''p1'' 3)) ''p1'') = 5 \<and>
   carts lamp_in_cart = [''alice'' \<mapsto> [(''p1'', \<lparr>product = ''p1'', quantity = 1\<rparr>)]] \<and>
   stock (objs lamp_in_cart ''p1'') = 1 \<and>
   fst (remove_from_cart lamp_in_cart ''alice'' ''p1'' 2) = Inr () \<and>
   carts (snd (remove_from_cart lamp_in_cart ''alice'' ''p1'' 2)) = [''alice'' \<mapsto> []] \<and>
   stock (objs (snd (remove_from_cart lamp_in_cart ''alice'' ''p1'' 2)) ''p1'') = 3"
  by (simp add: lamp_in_cart_def eval_defs)

subsection \<open>Account lockout\<close>

lemma verify_password_frame [simp]:
  "verify_password sha (u\<lparr>failed_attempts := c\<rparr>) pw = verify_password sha u pw"
  "verify_password sha (u\<lparr>locked_until := t\<rparr>) pw = verify_password sha u pw"
  by (simp_all add: verify_password_def)

lemma is_locked_frame [simp]:
  "is_locked (u\<lparr>failed_attempts := c\<rparr>) now = is_locked u now"
  by (simp add: is_locked_def)

lemma login_wrong_password:
  assumes "users a uname = Some u" and "active u" and "\<not> is_locked u now"
    and "verify_password sha u pw = Inr False"
  shows "fst (login sha a uname pw now token) = Inl AuthenticationError"
    and "users (snd (login sha a uname pw now token)) =
           (users a)(uname \<mapsto> register_failed_login u MAX_FAILED_ATTEMPTS LOCK_DURATION now)"
    and "sessions (snd (login sha a uname pw now token)) = sessions a"
  using assms by (simp_all add: login_def)

lemma attempts_until_lock:
  assumes "attempts \<noteq> []"
    and "users a uname = Some u" and "active u"
    and "\<forall>(pw, now, token) \<in> set attempts. verify_password sha u pw = Inr False \<and> \<not> is_locked u now"
    and "failed_attempts u + int (length attempts) = MAX_FAILED_ATTEMPTS"
  shows "fst (login_attempts sha a uname attempts) =
           replicate (length attempts) (Inl AuthenticationError) \<and>
         users (snd (login_attempts sha a uname attempts)) =
           (users a)(uname \<mapsto>
              u\<lparr>locked_until := Some (fst (snd (last attempts)) + LOCK_DURATION),
                failed_attempts := 0\<rparr>) \<and>
         sessions (snd (login_attempts sha a uname attempts)) = sessions a"
  using assms
proof (induction attempts arbitrary: a u rule: list_nonempty_induct)
  case (single x)
  obtain pw now token where x: "x = (pw, now, token)" by (cases x)
  from single x have ok: "\<not> is_locked u now" "verify_password sha u pw = Inr False"
    by simp_all
  from single have "register_failed_login u MAX_FAILED_ATTEMPTS LOCK_DURATION now =
      u\<lparr>locked_until := Some (now + LOCK_DURATION), failed_attempts := 0\<rparr>"
    by (simp add: register_failed_login_def Let_def)
  with login_wrong_password [OF single(1,2) ok, of token] x show ?case
    by (simp add: split_beta)
next
  case (cons x xs)
  obtain pw now token where x: "x = (pw, now, token)" by (cases x)
  let ?u1 = "u\<lparr>failed_attempts := failed_attempts u + 1\<rparr>"
  let ?a1 = "snd (login sha a uname pw now token)"
  from cons.prems x have ok: "\<not> is_locked u now" "verify_password sha u pw = Inr False"
    by simp_all
  from cons.hyps have "0 < int (length xs)" by simp
  moreover from cons.prems(4)
  have "failed_attempts u + 1 + int (length xs) = MAX_FAILED_ATTEMPTS" by simp
  ultimately have lt: "failed_attempts u + 1 < MAX_FAILED_ATTEMPTS"
    by linarith
  then have reg: "register_failed_login u MAX_FAILED_ATTEMPTS LOCK_DURATION now = ?u1"
    by (simp add: register_failed_login_def Let_def)
  note first = login_wrong_password [OF cons.prems(1,2) ok, of token]
  have u1: "users ?a1 uname = Some ?u1"
    using first(2) reg by simp
  have "fst (login_attempts sha ?a1 uname xs) =
           replicate (length xs) (Inl AuthenticationError) \<and>
         users (snd (login_attempts sha ?a1 uname xs)) =
           (users ?a1)(uname \<mapsto>
              ?u1\<lparr>locked_until := Some (fst (snd (last xs)) + LOCK_DURATION),
                failed_attempts := 0\<rparr>) \<and>
         sessions (snd (login_attempts sha ?a1 uname xs)) = sessions ?a1"
    using u1 cons.prems by (intro cons.IH) auto
  with first reg x cons.hyps show ?case
    by (simp add: split_beta)
qed

text \<open>
  C6. Take an active user whose failure counter is zero, a password \<open>good\<close> that
  verifies, and \<open>MAX_FAILED_ATTEMPTS\<close> login attempts in a row with passwords that do not
  verify, made while the account is not locked. All of them fail with
  \<open>AuthenticationError\<close>. From then on every login attempt made before the time of the
  last failure plus \<open>LOCK_DURATION\<close> fails with \<open>AuthenticationError\<close>, whatever the
  password, and changes nothing, so that the same holds for the attempt after it. An
  attempt with the good password made once that time has come returns the session token
  and records the session; so does one made at any time after an admin has unlocked the
  account.
\<close>

theorem lockout_after_max_failed_attempts:
  assumes "users a uname = Some u" and "active u" and "failed_attempts u = 0"
    and "verify_password sha u good = Inr True"
    and "int (length attempts) = MAX_FAILED_ATTEMPTS"
    and "\<forall>(pw, now, token) \<in> set attempts.
           verify_password sha u pw = Inr False \<and> \<not> is_locked u now"
  shows "fst (login_attempts sha a uname attempts) =
           replicate (length attempts) (Inl AuthenticationError) \<and>
         (\<forall>pw now token. now < fst (snd (last attempts)) + LOCK_DURATION \<longrightarrow>
            login sha (snd (login_attempts sha a uname attempts)) uname pw now token =
              (Inl AuthenticationError, snd (login_attempts sha a uname attempts))) \<and>
         (\<forall>now token. fst (snd (last attempts)) + LOCK_DURATION \<le> now \<longrightarrow>
            fst (login sha (snd (login_attempts sha a uname attempts)) uname good now token) =
              Inr token \<and>
            sessions (snd (login sha (snd (login_attempts sha a uname attempts)) uname good now token))
              token = Some (user_ident u)) \<and>
         (\<forall>acting now token. role acting = Some ''admin'' \<longrightarrow>
            fst (unlock_user (snd (login_attempts sha a uname attempts)) uname acting) = Inr () \<and>
            fst (login sha (snd (unlock_user (snd (login_attempts sha a uname attempts)) uname acting))
                   uname good now token) = Inr token)"
proof -
  let ?a' = "snd (login_attempts sha a uname attempts)"
  let ?u' = "u\<lparr>locked_until := Some (fst (snd (last attempts)) + LOCK_DURATION),
                failed_attempts := 0\<rparr>"
  from assms(5) have ne: "attempts \<noteq> []"
    by (auto simp: MAX_FAILED_ATTEMPTS_def)
  from assms(3,5) have "failed_attempts u + int (length attempts) = MAX_FAILED_ATTEMPTS"
    by simp
  from attempts_until_lock [OF ne assms(1,2,6) this]
  have res: "fst (login_attempts sha a uname attempts) =
           replicate (length attempts) (Inl AuthenticationError)"
    and us: "users ?a' uname = Some ?u'"
    by simp_all
  have locked: "login sha ?a' uname pw now token = (Inl AuthenticationError, ?a')"
    if "now < fst (snd (last attempts)) + LOCK_DURATION" for pw now token
    using that us assms(2) by (simp add: login_def is_locked_def)
  have elapsed: "fst (login sha ?a' uname good now token) = Inr token \<and>
      sessions (snd (login sha ?a' uname good now token)) token = Some (user_ident u)"
    if "fst (snd (last attempts)) + LOCK_DURATION \<le> now" for now token
    using that us assms(2,4) by (simp add: login_def is_locked_def)
  have unlocked: "fst (unlock_user ?a' uname acting) = Inr () \<and>
      fst (login sha (snd (unlock_user ?a' uname acting)) uname good now token) = Inr token"
    if "role acting = Some ''admin''" for acting now token
    using that us assms(2,4)
    by (simp add: unlock_user_def require_admin_def login_def is_locked_def reset_lock_def)
  from res locked elapsed unlocked show ?thesis by blast
qed

theorem lockout_after_max_failed_attempts_witness:
  "users alice_auth ''alice'' = Some alice \<and> active alice \<and> failed_attempts alice = 0 \<and>
   verify_password plain_sha alice ''password'' = Inr True \<and>
   int (length five_wrong) = MAX_FAILED_ATTEMPTS \<and>
   list_all (\<lambda>(pw, now, token).
       verify_password plain_sha alice pw = Inr False \<and> \<not> is_locked alice now) five_wrong \<and>
   fst (login_attempts plain_sha alice_auth ''alice'' five_wrong) =
     replicate 5 (Inl AuthenticationError) \<and>
   fst (login plain_sha (snd (login_attempts plain_sha alice_auth ''alice'' five_wrong))
          ''alice'' ''password'' 60 ''t6'') = Inl AuthenticationError \<and>
   fst (login plain_sha (snd (login_attempts plain_sha alice_auth ''alice'' five_wrong))
          ''alice'' ''password'' (50 + LOCK_DURATION) ''t7'') = Inr ''t7'' \<and>
   fst (login plain_sha
          (snd (unlock_user (snd (login_attempts plain_sha alice_auth ''alice'' five_wrong))
                  ''alice'' admin))
          ''alice'' ''password'' 60 ''t8'') = Inr ''t8''"
proof -
  have u: "users alice_auth ''alice'' = Some alice"
    by (simp add: alice_auth_def)
  have act: "active alice" and zero: "failed_attempts alice = 0"
    by (simp_all add: alice_def)
  have good: "verify_password plain_sha alice ''password'' = Inr True"
    by (simp add: verify_password_def verify_password_hash_def plain_sha_def alice_def)
  have len: "int (length five_wrong) = MAX_FAILED_ATTEMPTS"
    by (simp add: five_wrong_def MAX_FAILED_ATTEMPTS_def)
  have bad: "\<forall>(pw, now, token) \<in> set five_wrong.
      verify_password plain_sha alice pw = Inr False \<and> \<not> is_locked alice now"
    by (simp add: five_wrong_def verify_password_def verify_password_hash_def plain_sha_def
        is_locked_def alice_def)
  have last: "fst (snd (last five_wrong)) = 50" and n: "length five_wrong = 5"
    by (simp_all add: five_wrong_def)
  have adm: "role admin = Some ''admin''"
    by (simp add: admin_def)
  have soon: "(60::int) < 50 + LOCK_DURATION"
    by (simp add: LOCK_DURATION_def)
  note facts = lockout_after_max_failed_attempts [OF u act zero good len bad, unfolded last n]
  from facts have "fst (login_attempts plain_sha alice_auth ''alice'' five_wrong) =
      replicate 5 (Inl AuthenticationError)"
    by blast
  moreover from facts soon
  have "login plain_sha (snd (login_attempts plain_sha alice_auth ''alice'' five_wrong))
      ''alice'' ''password'' 60 ''t6'' =
      (Inl AuthenticationError, snd (login_attempts plain_sha alice_auth ''alice'' five_wrong))"
    by blast
  moreover from facts
  have "fst (login plain_sha (snd (login_attempts plain_sha alice_auth ''alice'' five_wrong))
      ''alice'' ''password'' (50 + LOCK_DURATION) ''t7'') = Inr ''t7''"
    by (meson order_refl)
  moreover from facts adm
  have "fst (login plain_sha
          (snd (unlock_user (snd (login_attempts plain_sha alice_auth ''alice'' five_wrong))
                  ''alice'' admin))
          ''alice'' ''password'' 60 ''t8'') = Inr ''t8''"
    by blast
  ultimately show ?thesis
    using u act zero good len bad by (simp add: list_all_iff)
qed

end
